theory Spec2Isabelle
  imports Complex_Main "HOL-Library.Log_Nat" "HOL-Library.Multiset"
begin

section \<open>Python floats\<close>

text \<open>
  The predictor of \<^verbatim>\<open>main.py\<close> computes its confidence with Python floats, that is
  IEEE 754 binary64 numbers under round-to-nearest, ties-to-even. A finite float is
  modelled by the rational number it denotes, and every operation returns the exact
  result rounded to the nearest float. The exponent is bounded below as in binary64
  (subnormal numbers have the fixed spacing \<open>2 powi (- 1074)\<close>); it is not bounded above,
  because the only numbers that enter the computation are differences of two list
  counts, and a CPython list holds fewer than \<open>2 ^ 63\<close> elements.
\<close>

type_synonym pyfloat = rat

text \<open>Rounding a rational to the nearest integer, a tie going to the even neighbour.\<close>

definition rhe :: "rat \<Rightarrow> int" where
  "rhe x = (let f = \<lfloor>x\<rfloor>; r = x - of_int f
            in if r < 1/2 then f
               else if 1/2 < r then f + 1
               else if even f then f else f + 1)"

text \<open>The binary exponent of a positive rational: \<open>2 powi expo x \<le> x < 2 powi (expo x + 1)\<close>.\<close>

definition expo :: "rat \<Rightarrow> int" where
  "expo x = (let (p, q) = quotient_of x; e = bitlen p - bitlen q
             in if 2 powi e \<le> x then e else e - 1)"

text \<open>The exponent of the spacing of the floats around \<open>x\<close>: 53 significant bits.\<close>

definition ulp_exp :: "rat \<Rightarrow> int" where
  "ulp_exp x = max (expo x) (- 1022) - 52"

definition rnd_pos :: "rat \<Rightarrow> rat" where
  "rnd_pos x = of_int (rhe (x / 2 powi ulp_exp x)) * 2 powi ulp_exp x"

text \<open>The float nearest to a rational.\<close>

definition rnd :: "rat \<Rightarrow> pyfloat" where
  "rnd x = (if x = 0 then 0 else if x < 0 then - rnd_pos (- x) else rnd_pos x)"

text \<open>Conversion of a Python int, as in \<^verbatim>\<open>int * float\<close>.\<close>

definition float_of_int :: "int \<Rightarrow> pyfloat" where
  "float_of_int i = rnd (of_int i)"

definition fadd :: "pyfloat \<Rightarrow> pyfloat \<Rightarrow> pyfloat" where
  "fadd a b = rnd (a + b)"

definition fsub :: "pyfloat \<Rightarrow> pyfloat \<Rightarrow> pyfloat" where
  "fsub a b = rnd (a - b)"

definition fmul :: "pyfloat \<Rightarrow> pyfloat \<Rightarrow> pyfloat" where
  "fmul a b = rnd (a * b)"

text \<open>
  The builtin \<^verbatim>\<open>min(a, b)\<close> keeps its first argument unless the second is strictly
  smaller.
\<close>

definition py_min :: "pyfloat \<Rightarrow> pyfloat \<Rightarrow> pyfloat" where
  "py_min a b = (if b < a then b else a)"

text \<open>
  \<^verbatim>\<open>round(x, 2)\<close> on a float: the exact value of \<open>x\<close> is rounded to two decimals, a tie
  going to the even digit, and the decimal is converted back to the nearest float.
\<close>

definition py_round2 :: "pyfloat \<Rightarrow> pyfloat" where
  "py_round2 x = rnd (of_int (rhe (x * 100)) / 100)"

text \<open>The float literals of the source: \<^verbatim>\<open>0.05\<close>, \<^verbatim>\<open>0.5\<close>, \<^verbatim>\<open>0.95\<close>, \<^verbatim>\<open>0.3\<close>.\<close>

definition f_0_05 :: pyfloat where "f_0_05 = rnd (5 / 100)"
definition f_0_5 :: pyfloat where "f_0_5 = rnd (5 / 10)"
definition f_0_95 :: pyfloat where "f_0_95 = rnd (95 / 100)"
definition f_0_3 :: pyfloat where "f_0_3 = rnd (3 / 10)"

section \<open>The random source\<close>

text \<open>
  The module \<^verbatim>\<open>random\<close> is a library, not part of the repository. A run of the predictor
  makes at most one call of \<^verbatim>\<open>random.choice\<close> and at most one of \<^verbatim>\<open>random.uniform\<close>; the
  model takes what the generator delivers to these calls as an argument:
  \<open>rand_index\<close> is the index that \<^verbatim>\<open>choice\<close> draws (\<^verbatim>\<open>seq[self._randbelow(len(seq))]\<close>),
  \<open>rand_unit\<close> is the value of \<^verbatim>\<open>random()\<close> inside \<^verbatim>\<open>uniform\<close>.
\<close>

record rand_src =
  rand_index :: nat
  rand_unit :: pyfloat


definition choice :: "'a list \<Rightarrow> rand_src \<Rightarrow> 'a" where
  "choice seq r = seq ! rand_index r"

text \<open>\<^verbatim>\<open>uniform(a, b)\<close> is \<^verbatim>\<open>a + (b - a) * self.random()\<close>.\<close>

definition uniform :: "pyfloat \<Rightarrow> pyfloat \<Rightarrow> rand_src \<Rightarrow> pyfloat" where
  "uniform a b r = fadd a (fmul (fsub b a) (rand_unit r))"

section \<open>The predictor\<close>

text \<open>
  The arguments have the types of the docstring: the sport and the two team names are
  strings, a form is a list of strings. The result dictionary has one of two shapes:
  \<^verbatim>\<open>prediction = 'win'\<close> with the two teams and the confidence, or
  \<^verbatim>\<open>prediction = 'Draw'\<close> with the confidence only.
\<close>

datatype prediction =
    is_Win: Win (winning_team: string) (losing_team: string) (confidence: pyfloat)
  | is_Draw: Draw (confidence: pyfloat)

text \<open>\<^verbatim>\<open>form.count('W')\<close>\<close>

definition count_W :: "string list \<Rightarrow> int" where
  "count_W form = int (count_list form ''W'')"

text \<open>Lines 59 to 67: the cap, and the win record with the rounded confidence.\<close>

definition win_record :: "string \<Rightarrow> string \<Rightarrow> pyfloat \<Rightarrow> prediction" where
  "win_record winner loser conf = Win winner loser (py_round2 (py_min conf f_0_95))"

definition predict_match_outcome ::
  "string \<Rightarrow> string \<Rightarrow> string \<Rightarrow> string list \<Rightarrow> string list \<Rightarrow> rand_src \<Rightarrow> prediction" where
  "predict_match_outcome sport team_a team_b team_a_form team_b_form r =
    (let team_a_wins = count_W team_a_form;
         team_b_wins = count_W team_b_form
     in if team_a_wins > team_b_wins then
          win_record team_a team_b
            (fadd f_0_5 (fmul (float_of_int (team_a_wins - team_b_wins)) f_0_05))
        else if team_b_wins > team_a_wins then
          win_record team_b team_a
            (fadd f_0_5 (fmul (float_of_int (team_b_wins - team_a_wins)) f_0_05))
        else if sport = ''football'' then
          (let outcome = choice [team_a, team_b, ''Draw''] r
           in if outcome = ''Draw'' then Draw (uniform f_0_3 f_0_5 r)
              else win_record outcome (if outcome = team_a then team_b else team_a) f_0_5)
        else
          (let winner = choice [team_a, team_b] r
           in win_record winner (if winner = team_a then team_b else team_a) f_0_5))"

section \<open>The endpoint\<close>

text \<open>
  What \<^verbatim>\<open>request.get_json()\<close> hands to the view function: a decoded JSON value, or
  \<^verbatim>\<open>None\<close>. A string is a sequence of code points below 256; a dictionary is the list of
  its items, looked up by key.
\<close>

datatype pyval =
    PNone
  | PBool bool
  | PInt int
  | PFloat rat
  | PStr string
  | PList "pyval list"
  | PDict "(string \<times> pyval) list"

text \<open>The exceptions that leave \<^verbatim>\<open>predict\<close> before its \<^verbatim>\<open>try\<close> block.\<close>

datatype exn = TypeError | AttributeError

text \<open>
  The reply of \<^verbatim>\<open>predict\<close>: an error body with its status, or the entry into the
  \<^verbatim>\<open>try\<close> block of lines 102 to 107, which calls \<^verbatim>\<open>predict_match_outcome\<close> with the
  five values bound in lines 90 to 94.
\<close>

datatype reply =
    Error_reply nat string
  | Call_predictor string pyval pyval pyval pyval

text \<open>Truth value testing, as in \<^verbatim>\<open>if not data\<close>.\<close>

fun truthy :: "pyval \<Rightarrow> bool" where
  "truthy PNone = False"
| "truthy (PBool b) = b"
| "truthy (PInt i) = (i \<noteq> 0)"
| "truthy (PFloat x) = (x \<noteq> 0)"
| "truthy (PStr s) = (s \<noteq> [])"
| "truthy (PList xs) = (xs \<noteq> [])"
| "truthy (PDict kvs) = (kvs \<noteq> [])"

text \<open>\<^verbatim>\<open>p in s\<close> on two strings: \<open>p\<close> occurs in \<open>s\<close> as a contiguous piece.\<close>

fun occurs_in :: "string \<Rightarrow> string \<Rightarrow> bool" where
  "occurs_in p [] = (p = [])"
| "occurs_in p (c # cs) = (take (length p) (c # cs) = p \<or> occurs_in p cs)"

text \<open>
  \<^verbatim>\<open>field in data\<close>: a key of a dictionary, an element of a list, a piece of a string;
  the other values are not containers.
\<close>

fun py_in :: "string \<Rightarrow> pyval \<Rightarrow> exn + bool" where
  "py_in field (PDict kvs) = Inr (field \<in> set (map fst kvs))"
| "py_in field (PList xs) = Inr (PStr field \<in> set xs)"
| "py_in field (PStr s) = Inr (occurs_in field s)"
| "py_in field _ = Inl TypeError"

definition required_fields :: "string list" where
  "required_fields = [''sport'', ''team_a'', ''team_b'', ''team_a_form'', ''team_b_form'']"

text \<open>
  The loop of lines 86 to 88: the first field that is not in the data, if there is one.
\<close>

fun first_missing :: "string list \<Rightarrow> pyval \<Rightarrow> exn + string option" where
  "first_missing [] data = Inr None"
| "first_missing (field # rest) data =
     (case py_in field data of
        Inl e \<Rightarrow> Inl e
      | Inr False \<Rightarrow> Inr (Some field)
      | Inr True \<Rightarrow> first_missing rest data)"

text \<open>\<^verbatim>\<open>data.get(key)\<close>: only a dictionary has the method; an absent key gives \<^verbatim>\<open>None\<close>.\<close>

definition dict_get :: "(string \<times> pyval) list \<Rightarrow> string \<Rightarrow> pyval" where
  "dict_get kvs key = (case map_of kvs key of None \<Rightarrow> PNone | Some v \<Rightarrow> v)"

fun py_get :: "pyval \<Rightarrow> string \<Rightarrow> exn + pyval" where
  "py_get (PDict kvs) key = Inr (dict_get kvs key)"
| "py_get _ key = Inl AttributeError"

text \<open>\<^verbatim>\<open>str.lower\<close> on code points below 256.\<close>

definition lower_char :: "char \<Rightarrow> char" where
  "lower_char c =
     (let n = of_char c :: nat
      in if (65 \<le> n \<and> n \<le> 90) \<or> (192 \<le> n \<and> n \<le> 222 \<and> n \<noteq> 215)
         then char_of (n + 32) else c)"

fun py_lower :: "pyval \<Rightarrow> exn + string" where
  "py_lower (PStr s) = Inr (map lower_char s)"
| "py_lower _ = Inl AttributeError"

definition supported_sports :: "string list" where
  "supported_sports = [''football'', ''basketball'', ''rugby'']"

text \<open>The message of line 99; the list is printed as Python prints a list of strings.\<close>

definition unsupported_message :: "string \<Rightarrow> string" where
  "unsupported_message sport =
     ''Sport '' @ [CHR 0x27] @ sport @ [CHR 0x27]
       @ '' is not supported. Supported sports are: [''
       @ [CHR 0x27] @ ''football'' @ [CHR 0x27] @ '', ''
       @ [CHR 0x27] @ ''basketball'' @ [CHR 0x27] @ '', ''
       @ [CHR 0x27] @ ''rugby'' @ [CHR 0x27] @ '']''"

definition predict :: "pyval \<Rightarrow> exn + reply" where
  "predict data =
    (if \<not> truthy data then Inr (Error_reply 400 ''No data provided'')
     else case first_missing required_fields data of
        Inl e \<Rightarrow> Inl e
      | Inr (Some field) \<Rightarrow> Inr (Error_reply 400 (''Missing field: '' @ field))
      | Inr None \<Rightarrow>
         (case py_get data ''sport'' of
            Inl e \<Rightarrow> Inl e
          | Inr sport_value \<Rightarrow>
             (case py_lower sport_value of
                Inl e \<Rightarrow> Inl e
              | Inr sport \<Rightarrow>
                 (case py_get data ''team_a'' of
                    Inl e \<Rightarrow> Inl e
                  | Inr team_a \<Rightarrow>
                     (case py_get data ''team_b'' of
                        Inl e \<Rightarrow> Inl e
                      | Inr team_b \<Rightarrow>
                         (case py_get data ''team_a_form'' of
                            Inl e \<Rightarrow> Inl e
                          | Inr team_a_form \<Rightarrow>
                             (case py_get data ''team_b_form'' of
                                Inl e \<Rightarrow> Inl e
                              | Inr team_b_form \<Rightarrow>
                                 if sport \<notin> set supported_sports
                                 then Inr (Error_reply 400 (unsupported_message sport))
                                 else Inr (Call_predictor sport team_a team_b
                                             team_a_form team_b_form))))))))"

section \<open>Properties of the rounding\<close>

lemma rhe_of_int: "rhe (of_int n) = n"
  by (simp add: rhe_def)

lemma rhe_floor_le: "\<lfloor>x\<rfloor> \<le> rhe x"
  by (simp add: rhe_def Let_def)

lemma rhe_le_floor: "rhe x \<le> \<lfloor>x\<rfloor> + 1"
  by (simp add: rhe_def Let_def)

lemma rhe_mono:
  assumes "x \<le> y"
  shows "rhe x \<le> rhe y"
proof (cases "\<lfloor>x\<rfloor> = \<lfloor>y\<rfloor>")
  case True
  with assms show ?thesis
    by (auto simp: rhe_def Let_def)
next
  case False
  with assms have "\<lfloor>x\<rfloor> + 1 \<le> \<lfloor>y\<rfloor>"
    using floor_mono [of x y] by linarith
  then show ?thesis
    using rhe_le_floor [of x] rhe_floor_le [of y] by linarith
qed

lemma two_powi_diff: "(2::rat) powi (a - b) = 2 powi a / 2 powi b"
  by (rule power_int_diff) simp

lemma expo_bounds:
  assumes "0 < x"
  shows "2 powi expo x \<le> x" and "x < 2 powi (expo x + 1)"
proof -
  obtain p q where pq: "quotient_of x = (p, q)" by (cases "quotient_of x")
  have q: "0 < q" using pq quotient_of_denom_pos by blast
  have x: "x = of_int p / of_int q" using pq quotient_of_div by blast
  have p: "0 < p" using assms q x
    by (simp add: zero_less_divide_iff)
  define e where "e = bitlen p - bitlen q"
  have bp: "2 ^ nat (bitlen p - 1) \<le> p" "p < 2 ^ nat (bitlen p)"
    using bitlen_bounds [OF p] by auto
  have bq: "2 ^ nat (bitlen q - 1) \<le> q" "q < 2 ^ nat (bitlen q)"
    using bitlen_bounds [OF q] by auto
  have lp: "1 \<le> bitlen p" using p by (simp add: bitlen_alt_def)
  have lq: "1 \<le> bitlen q" using q by (simp add: bitlen_alt_def)
  have lo: "(2::rat) powi (e - 1) \<le> x"
  proof -
    have "e - 1 = (bitlen p - 1) - bitlen q" by (simp add: e_def)
    then have "(2::rat) powi (e - 1) = 2 powi (bitlen p - 1) / 2 powi bitlen q"
      by (simp only: two_powi_diff)
    also have "\<dots> = 2 ^ nat (bitlen p - 1) / 2 ^ nat (bitlen q)"
      using lp lq by (simp add: power_int_def)
    also have "\<dots> \<le> of_int p / of_int q"
    proof (rule frac_le)
      show "(0::rat) \<le> of_int p" using p by simp
      show "(2::rat) ^ nat (bitlen p - 1) \<le> of_int p"
        using bp(1) by (metis of_int_le_iff of_int_numeral of_int_power)
      show "(0::rat) < of_int q" using q by simp
      show "(of_int q :: rat) \<le> 2 ^ nat (bitlen q)"
        using bq(2) by (metis less_imp_le of_int_le_iff of_int_numeral of_int_power)
    qed
    finally show ?thesis by (simp add: x)
  qed
  have hi: "x < (2::rat) powi (e + 1)"
  proof -
    have "of_int p / of_int q < (2::rat) ^ nat (bitlen p) / 2 ^ nat (bitlen q - 1)"
    proof (rule frac_less)
      show "(0::rat) \<le> of_int p" using p by simp
      show "(of_int p :: rat) < 2 ^ nat (bitlen p)"
        using bp(2) by (metis of_int_less_iff of_int_numeral of_int_power)
      show "(0::rat) < 2 ^ nat (bitlen q - 1)" by simp
      show "(2::rat) ^ nat (bitlen q - 1) \<le> of_int q"
        using bq(1) by (metis of_int_le_iff of_int_numeral of_int_power)
    qed
    also have "\<dots> = 2 powi bitlen p / 2 powi (bitlen q - 1)"
      using lp lq by (simp add: power_int_def)
    also have "\<dots> = 2 powi (bitlen p - (bitlen q - 1))"
      by (simp only: two_powi_diff)
    also have "bitlen p - (bitlen q - 1) = e + 1" by (simp add: e_def)
    finally show ?thesis by (simp add: x)
  qed
  have ex: "expo x = (if 2 powi e \<le> x then e else e - 1)"
    by (simp add: expo_def pq e_def)
  show "2 powi expo x \<le> x" using lo ex by auto
  show "x < 2 powi (expo x + 1)" using hi ex by (auto simp: not_le)
qed


lemma expo_mono:
  assumes "0 < x" and "x \<le> y"
  shows "expo x \<le> expo y"
proof -
  have "0 < y" using assms by linarith
  have "(2::rat) powi expo x < 2 powi (expo y + 1)"
    using expo_bounds(1) [OF assms(1)] assms(2) expo_bounds(2) [OF \<open>0 < y\<close>] by linarith
  moreover have "(2::rat) powi (expo y + 1) \<le> 2 powi expo x" if "expo y + 1 \<le> expo x"
    using that by (rule power_int_increasing) simp
  ultimately show ?thesis by force
qed

lemma ulp_pos: "(0::rat) < 2 powi ulp_exp x"
  by (simp add: zero_less_power_int)

lemma two_powi_53: "(2::rat) powi (e + 1) / 2 powi (e - 52) = of_int (2 ^ 53)"
proof -
  have "(2::rat) powi (e + 1) / 2 powi (e - 52) = 2 powi ((e + 1) - (e - 52))"
    by (simp only: two_powi_diff)
  also have "(e + 1) - (e - 52) = 53" by simp
  finally show ?thesis by (simp add: power_int_def)
qed

lemma two_powi_52: "(2::rat) powi e / 2 powi (e - 52) = of_int (2 ^ 52)"
proof -
  have "(2::rat) powi e / 2 powi (e - 52) = 2 powi (e - (e - 52))"
    by (simp only: two_powi_diff)
  also have "e - (e - 52) = 52" by simp
  finally show ?thesis by (simp add: power_int_def)
qed

lemma rnd_pos_upper:
  assumes "0 < x"
  shows "rnd_pos x \<le> 2 powi (max (expo x) (- 1022) + 1)"
proof -
  define E where "E = max (expo x) (- 1022)"
  have u: "ulp_exp x = E - 52" by (simp add: ulp_exp_def E_def)
  have "x < 2 powi (expo x + 1)" using expo_bounds(2) [OF assms] .
  also have "\<dots> \<le> 2 powi (E + 1)"
    by (rule power_int_increasing) (simp_all add: E_def)
  finally have "x / 2 powi (E - 52) \<le> 2 powi (E + 1) / 2 powi (E - 52)"
    by (simp add: divide_right_mono zero_less_power_int less_imp_le)
  then have "rhe (x / 2 powi (E - 52)) \<le> rhe (of_int (2 ^ 53))"
    unfolding two_powi_53 by (rule rhe_mono)
  then have "rhe (x / 2 powi (E - 52)) \<le> 2 ^ 53"
    by (simp only: rhe_of_int)
  then have "(of_int (rhe (x / 2 powi (E - 52))) :: rat) \<le> of_int (2 ^ 53)"
    by (simp only: of_int_le_iff)
  then have "of_int (rhe (x / 2 powi (E - 52))) * 2 powi (E - 52)
             \<le> (of_int (2 ^ 53) :: rat) * 2 powi (E - 52)"
    by (rule mult_right_mono) (simp add: zero_le_power_int)
  also have "(of_int (2 ^ 53) :: rat) * 2 powi (E - 52) = 2 powi (E + 1)"
    using two_powi_53 [of E] by (simp add: field_simps)
  finally show ?thesis by (simp add: rnd_pos_def u E_def)
qed

lemma rnd_pos_lower:
  assumes "0 < x" and "- 1022 \<le> expo x"
  shows "2 powi expo x \<le> rnd_pos x"
proof -
  define E where "E = expo x"
  have u: "ulp_exp x = E - 52" using assms(2) by (simp add: ulp_exp_def E_def)
  have "2 powi E \<le> x" using expo_bounds(1) [OF assms(1)] by (simp add: E_def)
  then have "2 powi E / 2 powi (E - 52) \<le> x / 2 powi (E - 52)"
    by (simp add: divide_right_mono zero_less_power_int less_imp_le)
  then have "rhe (of_int (2 ^ 52)) \<le> rhe (x / 2 powi (E - 52))"
    unfolding two_powi_52 by (rule rhe_mono)
  then have "2 ^ 52 \<le> rhe (x / 2 powi (E - 52))"
    by (simp only: rhe_of_int)
  then have "(of_int (2 ^ 52) :: rat) \<le> of_int (rhe (x / 2 powi (E - 52)))"
    by (simp only: of_int_le_iff)
  then have "(of_int (2 ^ 52) :: rat) * 2 powi (E - 52)
             \<le> of_int (rhe (x / 2 powi (E - 52))) * 2 powi (E - 52)"
    by (rule mult_right_mono) (simp add: zero_le_power_int)
  moreover have "(of_int (2 ^ 52) :: rat) * 2 powi (E - 52) = 2 powi E"
    using two_powi_52 [of E] by (simp add: field_simps)
  ultimately have "(2::rat) powi E \<le> of_int (rhe (x / 2 powi (E - 52))) * 2 powi (E - 52)"
    by (simp only:)
  then show ?thesis by (simp add: rnd_pos_def u E_def)
qed

lemma rnd_pos_mono:
  assumes "0 < x" and "x \<le> y"
  shows "rnd_pos x \<le> rnd_pos y"
proof -
  have y: "0 < y" using assms by linarith
  define Ex where "Ex = max (expo x) (- 1022)"
  define Ey where "Ey = max (expo y) (- 1022)"
  have le: "Ex \<le> Ey" using expo_mono [OF assms] by (simp add: Ex_def Ey_def)
  show ?thesis
  proof (cases "Ex = Ey")
    case True
    then have u: "ulp_exp x = ulp_exp y" by (simp add: ulp_exp_def Ex_def Ey_def)
    have "x / 2 powi ulp_exp y \<le> y / 2 powi ulp_exp y"
      using assms(2) ulp_pos [of y] by (simp add: divide_right_mono less_imp_le)
    then have "rhe (x / 2 powi ulp_exp y) \<le> rhe (y / 2 powi ulp_exp y)"
      by (rule rhe_mono)
    then have "(of_int (rhe (x / 2 powi ulp_exp y)) :: rat) \<le> of_int (rhe (y / 2 powi ulp_exp y))"
      by (simp only: of_int_le_iff)
    then have "of_int (rhe (x / 2 powi ulp_exp y)) * 2 powi ulp_exp y
               \<le> (of_int (rhe (y / 2 powi ulp_exp y)) :: rat) * 2 powi ulp_exp y"
      by (rule mult_right_mono) (simp add: zero_le_power_int)
    then show ?thesis by (simp add: rnd_pos_def u)
  next
    case False
    with le have lt: "Ex + 1 \<le> Ey" by simp
    then have ey: "Ey = expo y" and ge: "- 1022 \<le> expo y"
      by (auto simp: Ex_def Ey_def)
    have "rnd_pos x \<le> 2 powi (Ex + 1)"
      using rnd_pos_upper [OF assms(1)] by (simp add: Ex_def)
    also have "\<dots> \<le> 2 powi Ey"
      by (rule power_int_increasing) (use lt in simp_all)
    also have "\<dots> \<le> rnd_pos y"
      using rnd_pos_lower [OF y ge] by (simp add: ey)
    finally show ?thesis .
  qed
qed

lemma rhe_nonneg: "0 \<le> x \<Longrightarrow> 0 \<le> rhe x"
  using rhe_mono [of 0 x] rhe_of_int [of 0] by simp

lemma rnd_pos_nonneg:
  assumes "0 \<le> x"
  shows "0 \<le> rnd_pos x"
proof -
  have "0 \<le> x / 2 powi ulp_exp x"
    using assms ulp_pos [of x] by (simp add: less_imp_le)
  then have "0 \<le> rhe (x / 2 powi ulp_exp x)" by (rule rhe_nonneg)
  then show ?thesis
    by (simp add: rnd_pos_def zero_le_power_int)
qed

lemma rnd_nonneg: "0 \<le> x \<Longrightarrow> 0 \<le> rnd x"
  by (simp add: rnd_def rnd_pos_nonneg)

lemma rnd_nonpos: "x \<le> 0 \<Longrightarrow> rnd x \<le> 0"
  using rnd_pos_nonneg [of "- x"] by (simp add: rnd_def)

lemma rnd_mono:
  assumes "x \<le> y"
  shows "rnd x \<le> rnd y"
proof -
  consider "0 < x" | "x \<le> 0" "0 \<le> y" | "y < 0" by linarith
  then show ?thesis
  proof cases
    case 1
    then show ?thesis using assms rnd_pos_mono [of x y] by (simp add: rnd_def)
  next
    case 2
    then show ?thesis using rnd_nonpos [of x] rnd_nonneg [of y] by linarith
  next
    case 3
    then have "0 < - y" "- y \<le> - x" "x < 0" using assms by simp_all
    then show ?thesis using rnd_pos_mono [of "- y" "- x"] 3 by (simp add: rnd_def)
  qed
qed

subsection \<open>The float constants of the predictor\<close>

lemma f_0_5_val: "f_0_5 = 1 / 2"
  by code_simp

lemma f_0_95_val: "f_0_95 = 4278419646001971 / 4503599627370496"
  by code_simp


lemma rnd_half: "rnd (1 / 2) = 1 / 2"
  by code_simp

lemma rnd_95: "rnd (95 / 100) = f_0_95"
  by (simp add: f_0_95_def)

lemma rhe_50: "rhe 50 = 50"
  using rhe_of_int [of 50] by simp

lemma rhe_f_0_95: "rhe (f_0_95 * 100) = 95"
  by code_simp

lemma f_0_95_le: "f_0_95 \<le> 95 / 100"
  by (simp add: f_0_95_val)

lemma half_le_f_0_95: "1 / 2 \<le> f_0_95"
  by (simp add: f_0_95_val)

lemma f_0_05_nonneg: "0 \<le> f_0_05"
  unfolding f_0_05_def by (rule rnd_nonneg) simp




lemma tie_confidence: "py_round2 (py_min f_0_5 f_0_95) = 1 / 2"
  by code_simp

lemma tie_confidence_half: "py_round2 (py_min (1 / 2) f_0_95) = 1 / 2"
  using tie_confidence by (simp only: f_0_5_val)

subsection \<open>Bounds on the confidence\<close>

lemma py_round2_mono: "x \<le> y \<Longrightarrow> py_round2 x \<le> py_round2 y"
  unfolding py_round2_def
  by (intro rnd_mono divide_right_mono) (simp_all add: rhe_mono)

lemma py_round2_half: "py_round2 (1 / 2) = 1 / 2"
  by code_simp

lemma py_round2_f_0_95: "py_round2 f_0_95 = f_0_95"
  by code_simp

lemma raw_confidence_ge:
  assumes "0 \<le> d"
  shows "1 / 2 \<le> fadd f_0_5 (fmul (float_of_int d) f_0_05)"
proof -
  have "0 \<le> float_of_int d"
    unfolding float_of_int_def using assms by (intro rnd_nonneg) simp
  then have "0 \<le> fmul (float_of_int d) f_0_05"
    unfolding fmul_def using f_0_05_nonneg by (intro rnd_nonneg) simp
  then have "1 / 2 \<le> f_0_5 + fmul (float_of_int d) f_0_05"
    by (simp add: f_0_5_val)
  then have "rnd (1 / 2) \<le> rnd (f_0_5 + fmul (float_of_int d) f_0_05)"
    by (rule rnd_mono)
  then show ?thesis by (simp only: rnd_half fadd_def)
qed

lemma capped_confidence_bounds:
  assumes "1 / 2 \<le> c"
  shows "1 / 2 \<le> py_round2 (py_min c f_0_95)" and "py_round2 (py_min c f_0_95) \<le> f_0_95"
proof -
  have lo: "1 / 2 \<le> py_min c f_0_95"
    using assms half_le_f_0_95 by (simp add: py_min_def)
  have hi: "py_min c f_0_95 \<le> f_0_95"
    by (simp add: py_min_def)
  show "1 / 2 \<le> py_round2 (py_min c f_0_95)"
    using py_round2_mono [OF lo] by (simp only: py_round2_half)
  show "py_round2 (py_min c f_0_95) \<le> f_0_95"
    using py_round2_mono [OF hi] by (simp only: py_round2_f_0_95)
qed

lemma confidence_bounds:
  assumes "0 \<le> d"
  shows "1 / 2 \<le> py_round2 (py_min (fadd f_0_5 (fmul (float_of_int d) f_0_05)) f_0_95)"
    and "py_round2 (py_min (fadd f_0_5 (fmul (float_of_int d) f_0_05)) f_0_95) \<le> 95 / 100"
  using capped_confidence_bounds [OF raw_confidence_ge [OF assms]] f_0_95_le by simp_all


section \<open>The predictor: unequal form\<close>

text \<open>
  Claim C1. When team A has strictly more \<^verbatim>\<open>'W'\<close> entries than team B, the predictor
  returns the win record of team A over team B, with the confidence
  \<^verbatim>\<open>round(min(0.5 + (wa - wb) * 0.05, 0.95), 2)\<close>, and this confidence lies between
  0.5 and 0.95.
\<close>

theorem more_wins_team_a:
  assumes "count_W team_b_form < count_W team_a_form"
  shows "let conf = py_round2 (py_min (fadd f_0_5
                      (fmul (float_of_int (count_W team_a_form - count_W team_b_form)) f_0_05))
                      f_0_95)
         in predict_match_outcome sport team_a team_b team_a_form team_b_form r
              = Win team_a team_b conf
            \<and> 1 / 2 \<le> conf \<and> conf \<le> 95 / 100"
proof -
  have d: "0 \<le> count_W team_a_form - count_W team_b_form" using assms by simp
  show ?thesis
    using assms confidence_bounds [OF d]
    by (simp add: predict_match_outcome_def win_record_def Let_def)
qed

theorem more_wins_team_a_witness:
  "count_W [''W'', ''L'', ''L''] < count_W [''W'', ''W'', ''L'']
   \<and> predict_match_outcome ''basketball'' ''Lions'' ''Tigers''
         [''W'', ''W'', ''L''] [''W'', ''L'', ''L''] \<lparr>rand_index = 0, rand_unit = 0\<rparr>
       = Win ''Lions'' ''Tigers''
           (py_round2 (py_min (fadd f_0_5 (fmul (float_of_int 1) f_0_05)) f_0_95))"
proof -
  have h: "count_W [''W'', ''L'', ''L''] < count_W [''W'', ''W'', ''L'']"
    by (simp add: count_W_def)
  show ?thesis
    using h more_wins_team_a [OF h, of "''basketball''" "''Lions''" "''Tigers''"
        "\<lparr>rand_index = 0, rand_unit = 0\<rparr>"]
    by (simp add: Let_def count_W_def)
qed

text \<open>
  Claim C7. When team B has strictly more \<^verbatim>\<open>'W'\<close> entries than team A, the roles are
  swapped: the predictor returns the win record of team B over team A with the same
  confidence formula on \<open>wb - wa\<close>, which is also what it returns when the two teams and
  their forms are passed in the other order.
\<close>

theorem more_wins_team_b:
  assumes "count_W team_a_form < count_W team_b_form"
  shows "let conf = py_round2 (py_min (fadd f_0_5
                      (fmul (float_of_int (count_W team_b_form - count_W team_a_form)) f_0_05))
                      f_0_95)
         in predict_match_outcome sport team_a team_b team_a_form team_b_form r
              = Win team_b team_a conf
            \<and> predict_match_outcome sport team_a team_b team_a_form team_b_form r
              = predict_match_outcome sport team_b team_a team_b_form team_a_form r
            \<and> 1 / 2 \<le> conf \<and> conf \<le> 95 / 100"
proof -
  have d: "0 \<le> count_W team_b_form - count_W team_a_form" using assms by simp
  show ?thesis
    using assms confidence_bounds [OF d]
    by (simp add: predict_match_outcome_def win_record_def Let_def)
qed

theorem more_wins_team_b_witness:
  "count_W [''L'', ''D''] < count_W [''W'', ''W'', ''W'']
   \<and> predict_match_outcome ''rugby'' ''Lions'' ''Tigers''
         [''L'', ''D''] [''W'', ''W'', ''W''] \<lparr>rand_index = 1, rand_unit = 0\<rparr>
       = Win ''Tigers'' ''Lions''
           (py_round2 (py_min (fadd f_0_5 (fmul (float_of_int 3) f_0_05)) f_0_95))
   \<and> predict_match_outcome ''rugby'' ''Lions'' ''Tigers''
         [''L'', ''D''] [''W'', ''W'', ''W''] \<lparr>rand_index = 1, rand_unit = 0\<rparr>
       = predict_match_outcome ''rugby'' ''Tigers'' ''Lions''
         [''W'', ''W'', ''W''] [''L'', ''D''] \<lparr>rand_index = 1, rand_unit = 0\<rparr>"
proof -
  have h: "count_W [''L'', ''D''] < count_W [''W'', ''W'', ''W'']"
    by (simp add: count_W_def)
  show ?thesis
    using h more_wins_team_b [OF h, of "''rugby''" "''Lions''" "''Tigers''"
        "\<lparr>rand_index = 1, rand_unit = 0\<rparr>"]
    by (auto simp: Let_def count_W_def)
qed

text \<open>
  Claim C8. The predictor reads each form only through its number of \<^verbatim>\<open>'W'\<close> entries:
  two pairs of forms with the same counts give the same result under the same random
  choices. In particular a form may be reordered, and its \<^verbatim>\<open>'D'\<close> entries may be
  replaced by \<^verbatim>\<open>'L'\<close>.
\<close>

theorem only_win_counts_matter:
  "(count_W team_a_form = count_W team_a_form' \<and> count_W team_b_form = count_W team_b_form'
      \<longrightarrow> predict_match_outcome sport team_a team_b team_a_form team_b_form r
          = predict_match_outcome sport team_a team_b team_a_form' team_b_form' r)
   \<and> (mset form = mset form' \<longrightarrow> count_W form = count_W form')
   \<and> count_W (map (\<lambda>c. if c = ''D'' then ''L'' else c) form) = count_W form"
proof (intro conjI impI)
  assume "count_W team_a_form = count_W team_a_form' \<and> count_W team_b_form = count_W team_b_form'"
  then show "predict_match_outcome sport team_a team_b team_a_form team_b_form r
             = predict_match_outcome sport team_a team_b team_a_form' team_b_form' r"
    by (simp add: predict_match_outcome_def)
next
  assume "mset form = mset form'"
  then have "count (mset form) ''W'' = count (mset form') ''W''" by simp
  then show "count_W form = count_W form'"
    by (simp add: count_W_def count_mset)
next
  show "count_W (map (\<lambda>c. if c = ''D'' then ''L'' else c) form) = count_W form"
    by (induction form) (simp_all add: count_W_def)
qed

theorem only_win_counts_matter_witness:
  "count_W [''W'', ''D'', ''L''] = count_W [''L'', ''L'', ''W'']
   \<and> count_W [''D'', ''W'', ''W''] = count_W [''W'', ''W'']
   \<and> predict_match_outcome ''football'' ''Lions'' ''Tigers''
        [''W'', ''D'', ''L''] [''D'', ''W'', ''W''] \<lparr>rand_index = 2, rand_unit = 1 / 4\<rparr>
      = predict_match_outcome ''football'' ''Lions'' ''Tigers''
        [''L'', ''L'', ''W''] [''W'', ''W''] \<lparr>rand_index = 2, rand_unit = 1 / 4\<rparr>
   \<and> mset [''W'', ''D'', ''L''] = mset [''L'', ''W'', ''D'']
   \<and> count_W [''W'', ''D'', ''L''] = count_W [''L'', ''W'', ''D'']"
proof -
  have h: "count_W [''W'', ''D'', ''L''] = count_W [''L'', ''L'', ''W'']
           \<and> count_W [''D'', ''W'', ''W''] = count_W [''W'', ''W'']"
    by (simp add: count_W_def)
  have m: "mset [''W'', ''D'', ''L''] = mset [''L'', ''W'', ''D'']"
    by (simp add: add.commute)
  show ?thesis
    using h m
      only_win_counts_matter [of "[''W'', ''D'', ''L'']" "[''L'', ''L'', ''W'']"
        "[''D'', ''W'', ''W'']" "[''W'', ''W'']" "''football''" "''Lions''" "''Tigers''"
        "\<lparr>rand_index = 2, rand_unit = 1 / 4\<rparr>" "[''W'', ''D'', ''L'']" "[''L'', ''W'', ''D'']"]
    by blast
qed

text \<open>
  Claim C9. Outside the tie-break the predictor is deterministic: when the two counts of
  \<^verbatim>\<open>'W'\<close> differ, the result is the same for any two random sources.
\<close>

theorem unequal_form_deterministic:
  assumes "count_W team_a_form \<noteq> count_W team_b_form"
  shows "predict_match_outcome sport team_a team_b team_a_form team_b_form r
         = predict_match_outcome sport team_a team_b team_a_form team_b_form r'"
  using assms by (auto simp: predict_match_outcome_def Let_def)

theorem unequal_form_deterministic_witness:
  "count_W [''W'', ''W''] \<noteq> count_W [''L'', ''W'']
   \<and> predict_match_outcome ''football'' ''Lions'' ''Tigers'' [''W'', ''W''] [''L'', ''W'']
         \<lparr>rand_index = 0, rand_unit = 0\<rparr>
     = predict_match_outcome ''football'' ''Lions'' ''Tigers'' [''W'', ''W''] [''L'', ''W'']
         \<lparr>rand_index = 2, rand_unit = 1 / 2\<rparr>"
proof -
  have h: "count_W [''W'', ''W''] \<noteq> count_W [''L'', ''W'']"
    by (simp add: count_W_def)
  show ?thesis
    using h unequal_form_deterministic [OF h, of "''football''" "''Lions''" "''Tigers''"
        "\<lparr>rand_index = 0, rand_unit = 0\<rparr>" "\<lparr>rand_index = 2, rand_unit = 1 / 2\<rparr>"]
    by simp
qed

section \<open>The predictor: the tie-break\<close>

text \<open>
  Claim C2. The confidence of every returned record is rounded to two decimals and is
  at most 0.95. The win record is built after the cap and the rounding of lines 60 to 66;
  the draw record of lines 48 to 51 returns before them, with the value of
  \<^verbatim>\<open>random.uniform(0.3, 0.5)\<close> as it is. With equal forms in football, the draw option
  chosen and \<^verbatim>\<open>random()\<close> returning 0.125, the confidence is the float 0.325, which
  \<^verbatim>\<open>round(_, 2)\<close> would have changed into 0.33.
\<close>

theorem draw_confidence_not_rounded:
  "predict_match_outcome ''football'' ''Lions'' ''Tigers'' [''W'', ''L''] [''L'', ''W'']
       \<lparr>rand_index = 2, rand_unit = 1 / 8\<rparr>
     = Draw (5854679515581645 / 18014398509481984)
   \<and> py_round2 (5854679515581645 / 18014398509481984) = 5944751508129055 / 18014398509481984
   \<and> py_round2 (5854679515581645 / 18014398509481984) \<noteq> 5854679515581645 / 18014398509481984
   \<and> rnd (325 / 1000) = 5854679515581645 / 18014398509481984
   \<and> rnd (33 / 100) = 5944751508129055 / 18014398509481984"
  by code_simp




text \<open>
  Claim C4. With equal counts and the sport basketball or rugby, the result is a win
  record, never a draw record, with confidence exactly 0.5: team A over team B when the
  choice draws the first entry, team B over team A when it draws the second.
\<close>

theorem no_draw_outside_football:
  assumes "sport = ''basketball'' \<or> sport = ''rugby''"
    and "count_W team_a_form = count_W team_b_form"
    and "rand_index r < 2"
  shows "predict_match_outcome sport team_a team_b team_a_form team_b_form r
         = (if rand_index r = 0 then Win team_a team_b f_0_5 else Win team_b team_a f_0_5)
         \<and> f_0_5 = 1 / 2"
proof -
  have s: "sport \<noteq> ''football''" using assms(1) by auto
  consider "rand_index r = 0" | "rand_index r = 1"
    using assms(3) by linarith
  then show ?thesis
  proof cases
    case 1
    then show ?thesis
      using s assms(2)
      by (simp add: predict_match_outcome_def choice_def win_record_def tie_confidence_half
          f_0_5_val)
  next
    case 2
    then show ?thesis
      using s assms(2)
      by (simp add: predict_match_outcome_def choice_def win_record_def tie_confidence_half
          f_0_5_val)
  qed
qed

theorem no_draw_outside_football_witness:
  "count_W [''W'', ''D''] = count_W [''L'', ''W'']
   \<and> predict_match_outcome ''basketball'' ''Lions'' ''Tigers'' [''W'', ''D''] [''L'', ''W'']
         \<lparr>rand_index = 0, rand_unit = 0\<rparr>
       = Win ''Lions'' ''Tigers'' f_0_5
   \<and> predict_match_outcome ''rugby'' ''Lions'' ''Tigers'' [''W'', ''D''] [''L'', ''W'']
         \<lparr>rand_index = 1, rand_unit = 0\<rparr>
       = Win ''Tigers'' ''Lions'' f_0_5"
proof -
  have h: "count_W [''W'', ''D''] = count_W [''L'', ''W'']"
    by (simp add: count_W_def)
  have b: "''basketball'' = ''basketball'' \<or> ''basketball'' = ''rugby''"
    and g: "''rugby'' = ''basketball'' \<or> ''rugby'' = ''rugby''"
    by simp_all
  have i0: "rand_index \<lparr>rand_index = 0, rand_unit = 0\<rparr> < 2"
    and i1: "rand_index \<lparr>rand_index = 1, rand_unit = 0\<rparr> < 2"
    by simp_all
  show ?thesis
    using h no_draw_outside_football [OF b h i0, of "''Lions''" "''Tigers''"]
      no_draw_outside_football [OF g h i1, of "''Lions''" "''Tigers''"]
    by simp
qed

text \<open>
  Claim C10. In the football tie-break the predictor never returns a win record whose
  winning team is the string \<^verbatim>\<open>'Draw'\<close>: when the chosen entry is that string, also as
  the name of a team, the result is a draw record, and otherwise it is a win record of
  a team with another name.
\<close>

theorem no_win_for_Draw:
  assumes "count_W team_a_form = count_W team_b_form"
    and "rand_index r < 3"
  shows "if choice [team_a, team_b, ''Draw''] r = ''Draw''
         then is_Draw (predict_match_outcome ''football'' team_a team_b team_a_form team_b_form r)
         else is_Win (predict_match_outcome ''football'' team_a team_b team_a_form team_b_form r)
              \<and> winning_team
                   (predict_match_outcome ''football'' team_a team_b team_a_form team_b_form r)
                 = choice [team_a, team_b, ''Draw''] r"
  using assms(1)
  by (simp add: predict_match_outcome_def win_record_def Let_def)

theorem no_win_for_Draw_witness:
  "count_W [''W''] = count_W [''W'']
   \<and> is_Draw (predict_match_outcome ''football'' ''Draw'' ''Tigers'' [''W''] [''W'']
        \<lparr>rand_index = 0, rand_unit = 1 / 2\<rparr>)
   \<and> is_Draw (predict_match_outcome ''football'' ''Lions'' ''Draw'' [''W''] [''W'']
        \<lparr>rand_index = 1, rand_unit = 1 / 2\<rparr>)"
proof -
  have h: "count_W [''W''] = count_W [''W'']" by simp
  have i0: "rand_index \<lparr>rand_index = 0, rand_unit = 1 / 2\<rparr> < 3"
    and i1: "rand_index \<lparr>rand_index = 1, rand_unit = 1 / 2\<rparr> < 3"
    by simp_all
  show ?thesis
    using no_win_for_Draw [OF h i0, of "''Draw''" "''Tigers''"]
      no_win_for_Draw [OF h i1, of "''Lions''" "''Draw''"]
    by (simp add: choice_def)
qed

section \<open>The endpoint: validation\<close>

lemma first_missing_dict:
  "first_missing fs (PDict kvs) = Inr (find (\<lambda>f. f \<notin> set (map fst kvs)) fs)"
  by (induction fs) simp_all







text \<open>
  Claim C5, as stated, fails at the empty JSON object: it is a JSON object that lacks
  all five fields, and the reply is \<^verbatim>\<open>No data provided\<close>, not
  \<^verbatim>\<open>Missing field: sport\<close>, because line 82 tests the truth value of the data.
\<close>

theorem empty_object_counterexample:
  "''sport'' \<in> set required_fields
   \<and> ''sport'' \<notin> set (map fst ([] :: (string \<times> pyval) list))
   \<and> predict (PDict []) = Inr (Error_reply 400 ''No data provided'')
   \<and> predict (PDict []) \<noteq> Inr (Error_reply 400 ''Missing field: sport'')"
  by (simp add: predict_def required_fields_def)

text \<open>
  Claim C5, amended. For a JSON object with at least one member that lacks one of the
  five required fields, the reply has status 400 and the error
  \<^verbatim>\<open>Missing field: <field>\<close> for the first required field that is absent; for data whose
  truth value is false (no data, \<^verbatim>\<open>null\<close>, the empty object) the reply has status 400
  and the error \<^verbatim>\<open>No data provided\<close>.
\<close>

theorem missing_field_reply:
  "(kvs \<noteq> [] \<and> field \<in> set required_fields \<and> field \<notin> set (map fst kvs)
      \<longrightarrow> (\<exists>first. find (\<lambda>f. f \<notin> set (map fst kvs)) required_fields = Some first
             \<and> predict (PDict kvs) = Inr (Error_reply 400 (''Missing field: '' @ first))))
   \<and> (\<not> truthy data \<longrightarrow> predict data = Inr (Error_reply 400 ''No data provided''))"
proof (intro conjI impI)
  assume h: "kvs \<noteq> [] \<and> field \<in> set required_fields \<and> field \<notin> set (map fst kvs)"
  then have "find (\<lambda>f. f \<notin> set (map fst kvs)) required_fields \<noteq> None"
    by (auto simp: find_None_iff)
  then obtain first
    where f: "find (\<lambda>f. f \<notin> set (map fst kvs)) required_fields = Some first"
    by blast
  have "predict (PDict kvs) = Inr (Error_reply 400 (''Missing field: '' @ first))"
    using h f by (simp add: predict_def first_missing_dict)
  with f show "\<exists>first. find (\<lambda>f. f \<notin> set (map fst kvs)) required_fields = Some first
      \<and> predict (PDict kvs) = Inr (Error_reply 400 (''Missing field: '' @ first))"
    by blast
next
  assume "\<not> truthy data"
  then show "predict data = Inr (Error_reply 400 ''No data provided'')"
    by (simp add: predict_def)
qed

theorem missing_field_reply_witness:
  "[(''sport'', PStr ''rugby''), (''team_a'', PStr ''Lions'')] \<noteq> []
   \<and> ''team_a_form'' \<in> set required_fields
   \<and> ''team_a_form'' \<notin> set (map fst [(''sport'', PStr ''rugby''), (''team_a'', PStr ''Lions'')])
   \<and> predict (PDict [(''sport'', PStr ''rugby''), (''team_a'', PStr ''Lions'')])
       = Inr (Error_reply 400 ''Missing field: team_b'')
   \<and> \<not> truthy PNone
   \<and> predict PNone = Inr (Error_reply 400 ''No data provided'')"
  using missing_field_reply [of "[(''sport'', PStr ''rugby''), (''team_a'', PStr ''Lions'')]"
      "''team_a_form''" PNone]
  by (simp add: required_fields_def)



end
